theory Spec2Isabelle
  imports Complex_Main
begin

section \<open>The capacitor energy-system simulation (sim\_energy\_system\_cap.py)\<close>

text \<open>
  The script is one module: three small functions, the reading of ten command-line
  arguments, an initialisation, a \<open>while\<close> loop and the writing of \<open>log.csv\<close>.
  Its module-level variables become the fields of two records: the ten parameters,
  which are never assigned after parsing, and the variables the loop assigns.

  Python's \<open>float\<close> is idealised as \<open>real\<close>: rounding, overflow, infinities and
  NaN are outside the model. Everything that raises in the script is a branch of the
  model: a float division by zero raises \<open>ZeroDivisionError\<close> whatever the numerator,
  \<open>math.sqrt\<close> of a negative number raises \<open>ValueError\<close>, and \<open>log[-1]\<close> of an
  empty list raises \<open>IndexError\<close>. The square root is the one of the reals: the
  example runs below evaluate it on squares and bound it elsewhere.
\<close>

datatype py_error = ZeroDivisionError | ValueError | IndexError

record config =
  sa_m2 :: real
  eff :: real
  voc :: real
  c_f :: real
  r_esr :: real
  q0_c :: real
  p_on_w :: real
  v_thresh :: real
  dt_s :: real
  dur_s :: real

text \<open>
  The variables of the main body. \<open>log_list\<close> is the script's \<open>log\<close> (the name
  \<open>log\<close> is the logarithm in HOL); a row \<open>[t_s, node_v]\<close> is a pair.
\<close>

record state =
  isc_a :: real
  i1_a :: real
  qt_c :: real
  p_mode_w :: real
  t_s :: real
  node_discr :: real
  node_v :: real
  log_list :: "(real \<times> real) list"

subsection \<open>Python's partial operations\<close>

definition truediv :: "real \<Rightarrow> real \<Rightarrow> py_error + real" where
  "truediv a b = (if b = 0 then Inl ZeroDivisionError else Inr (a / b))"

definition math_sqrt :: "real \<Rightarrow> py_error + real" where
  "math_sqrt x = (if x < 0 then Inl ValueError else Inr (sqrt x))"

subsection \<open>Constants and user-defined functions (lines 39--51)\<close>

definition irr_w_m2 :: real where
  "irr_w_m2 = 1366.1"

definition solar_current :: "real \<Rightarrow> real \<Rightarrow> real \<Rightarrow> real \<Rightarrow> py_error + real" where
  "solar_current irr sa ef vo = truediv (irr * sa * ef) vo"

definition node_discrim :: "real \<Rightarrow> real \<Rightarrow> real \<Rightarrow> real \<Rightarrow> real \<Rightarrow> py_error + real" where
  "node_discrim q c i esr pw =
     (case truediv q c of
        Inl e \<Rightarrow> Inl e
      | Inr x \<Rightarrow> Inr ((x + i * esr)\<^sup>2 - 4 * pw * esr))"

definition node_voltage :: "real \<Rightarrow> real \<Rightarrow> real \<Rightarrow> real \<Rightarrow> real \<Rightarrow> py_error + real" where
  "node_voltage q c i esr disc =
     (case truediv q c of
        Inl e \<Rightarrow> Inl e
      | Inr x \<Rightarrow>
          (case math_sqrt disc of
             Inl e \<Rightarrow> Inl e
           | Inr sq \<Rightarrow> Inr ((x + i * esr + sq) / 2)))"

subsection \<open>The main body (lines 85--129)\<close>

text \<open>
  The two \<open>if\<close> statements that follow every voltage solve (lines 96--100 and,
  with the same text, lines 122--126): the source is disconnected, then the load is cut off.
\<close>

definition mode_switch :: "config \<Rightarrow> state \<Rightarrow> state" where
  "mode_switch cfg s =
     (let s1 = (if voc cfg \<le> node_v s \<and> i1_a s \<noteq> 0 then s\<lparr>i1_a := 0\<rparr> else s)
      in if node_v s1 < v_thresh cfg then s1\<lparr>p_mode_w := 0\<rparr> else s1)"

text \<open>
  Lines 85--100: the initial values, the first solve (with no test of the discriminant's
  sign), the first row of the log, and then the two mode-switch rules.
\<close>

definition init :: "config \<Rightarrow> py_error + state" where
  "init cfg =
     (case solar_current irr_w_m2 (sa_m2 cfg) (eff cfg) (voc cfg) of
        Inl e \<Rightarrow> Inl e
      | Inr isc \<Rightarrow>
          (case node_discrim (q0_c cfg) (c_f cfg) isc (r_esr cfg) (p_on_w cfg) of
             Inl e \<Rightarrow> Inl e
           | Inr d \<Rightarrow>
               (case node_voltage (q0_c cfg) (c_f cfg) isc (r_esr cfg) d of
                  Inl e \<Rightarrow> Inl e
                | Inr v \<Rightarrow>
                    Inr (mode_switch cfg
                      \<lparr>isc_a = isc, i1_a = isc, qt_c = q0_c cfg, p_mode_w = p_on_w cfg,
                       t_s = 0, node_discr = d, node_v = v, log_list = [(0, v)]\<rparr>))))"

text \<open>
  Lines 116--118: a negative discriminant switches the load off and is computed again.
  The result is the pair of the new \<open>p_mode_w\<close> and the new \<open>node_discr\<close>.
\<close>

definition retry_discrim ::
  "real \<Rightarrow> real \<Rightarrow> real \<Rightarrow> real \<Rightarrow> real \<Rightarrow> real \<Rightarrow> py_error + (real \<times> real)" where
  "retry_discrim q c i esr pw d =
     (if d < 0
      then (case node_discrim q c i esr 0 of
              Inl e \<Rightarrow> Inl e
            | Inr d' \<Rightarrow> Inr (0, d'))
      else Inr (pw, d))"

text \<open>Lines 104--129: the body of the loop.\<close>

definition step :: "config \<Rightarrow> state \<Rightarrow> py_error + state" where
  "step cfg s =
     (case truediv (p_mode_w s) (node_v s) of
        Inl e \<Rightarrow> Inl e
      | Inr i3_a \<Rightarrow>
          (let q1 = qt_c s + (i1_a s - i3_a) * dt_s cfg;
               q = (if q1 < 0 then 0 else q1);
               pw = (if p_mode_w s = 0 \<and> voc cfg \<le> node_v s then p_on_w cfg else p_mode_w s);
               i1 = (if 0 \<le> node_v s \<and> node_v s < voc cfg then isc_a s else 0)
           in case node_discrim q (c_f cfg) i1 (r_esr cfg) pw of
                Inl e \<Rightarrow> Inl e
              | Inr d0 \<Rightarrow>
                  (case retry_discrim q (c_f cfg) i1 (r_esr cfg) pw d0 of
                     Inl e \<Rightarrow> Inl e
                   | Inr (pw', d) \<Rightarrow>
                       (case node_voltage q (c_f cfg) i1 (r_esr cfg) d of
                          Inl e \<Rightarrow> Inl e
                        | Inr v \<Rightarrow>
                            (let s' = mode_switch cfg
                                   (s\<lparr>i1_a := i1, qt_c := q, p_mode_w := pw',
                                      node_discr := d, node_v := v\<rparr>)
                             in Inr (s'\<lparr>log_list := log_list s' @ [(t_s s', v)],
                                        t_s := t_s s' + dt_s cfg\<rparr>))))))"

text \<open>
  Line 103, \<open>while log[-1][0] < dur_s\<close>. The loop need not end (a time step of zero
  never reaches a positive duration), so not returning is the value \<open>None\<close>.
\<close>

partial_function (option) while_loop :: "config \<Rightarrow> state \<Rightarrow> (py_error + state) option" where
  "while_loop cfg s =
     (case log_list s of
        [] \<Rightarrow> Some (Inl IndexError)
      | _ # _ \<Rightarrow>
          if fst (last (log_list s)) < dur_s cfg
          then (case step cfg s of
                  Inl e \<Rightarrow> Some (Inl e)
                | Inr s' \<Rightarrow> while_loop cfg s')
          else Some (Inr s))"

definition run :: "config \<Rightarrow> (py_error + state) option" where
  "run cfg =
     (case init cfg of
        Inl e \<Rightarrow> Some (Inl e)
      | Inr s \<Rightarrow> while_loop cfg s)"

subsection \<open>Command line and output (lines 66--80 and 131--137)\<close>

text \<open>
  An element of \<open>sys.argv\<close> is kept as what \<open>float()\<close> makes of it: the number it
  denotes, or the string itself when \<open>float()\<close> raises \<open>ValueError\<close>. The script's
  name, \<open>sys.argv[0]\<close>, is never converted.
\<close>

datatype arg = Num real | Str string

fun float_of :: "arg \<Rightarrow> real option" where
  "float_of (Num x) = Some x"
| "float_of (Str w) = None"

text \<open>
  How the script ends: \<open>sys.exit\<close> after some printed text, with the argument given
  to \<open>sys.exit\<close> (none is \<open>None\<close>); an exception nobody catches; or the rows written
  to \<open>log.csv\<close> under the header.
\<close>

datatype outcome =
    SystemExit string "int option"
  | Uncaught py_error
  | LogCsv "(real \<times> real) list"

text \<open>
  The exit status of the process, as the Python interpreter sets it: \<open>sys.exit()\<close> and
  \<open>sys.exit(None)\<close> give 0, \<open>sys.exit(n)\<close> gives \<open>n\<close>, an uncaught exception
  gives 1, and falling off the end of the script gives 0.
\<close>

fun exit_status :: "outcome \<Rightarrow> int" where
  "exit_status (SystemExit txt None) = 0"
| "exit_status (SystemExit txt (Some n)) = n"
| "exit_status (Uncaught e) = 1"
| "exit_status (LogCsv rows) = 0"

definition usage :: string where
  "usage = ''Usage: sim_energy_system_cap.py sa_m2 eff voc c_f r_esr q0_c p_on_w v_thresh dt_s dur_s''"

definition config_of :: "real list \<Rightarrow> config" where
  "config_of xs =
     \<lparr>sa_m2 = xs ! 0, eff = xs ! 1, voc = xs ! 2, c_f = xs ! 3, r_esr = xs ! 4,
      q0_c = xs ! 5, p_on_w = xs ! 6, v_thresh = xs ! 7, dt_s = xs ! 8, dur_s = xs ! 9\<rparr>"

definition main :: "arg list \<Rightarrow> outcome option" where
  "main argv =
     (if length argv = 11
      then (case those (map float_of (tl argv)) of
              None \<Rightarrow> Some (Uncaught ValueError)
            | Some xs \<Rightarrow>
                (case run (config_of xs) of
                   None \<Rightarrow> None
                 | Some (Inl e) \<Rightarrow> Some (Uncaught e)
                 | Some (Inr s) \<Rightarrow> Some (LogCsv (log_list s))))
      else Some (SystemExit usage None))"

text \<open>
  The states at which a row has just been logged: the one after the initialisation and
  the one after every iteration of the loop that the loop's test lets through.
\<close>

inductive reach :: "config \<Rightarrow> state \<Rightarrow> bool" for cfg :: config where
  reach_init: "init cfg = Inr s \<Longrightarrow> reach cfg s"
| reach_step:
    "reach cfg s \<Longrightarrow> log_list s \<noteq> [] \<Longrightarrow> fst (last (log_list s)) < dur_s cfg \<Longrightarrow>
     step cfg s = Inr s' \<Longrightarrow> reach cfg s'"

code_pred reach .

subsection \<open>Example configurations\<close>

text \<open>
  The scenario of the specification's section 8: \<open>sa_m2=1.0, eff=0.2, voc=5.0, c_f=0.01,
  r_esr=0.1, q0_c=0.0, p_on_w=0.5, v_thresh=3.0, dt_s=1.0, dur_s=5.0\<close>, with the
  states the script goes through on it.
\<close>

definition cfg_spec :: config where
  "cfg_spec = \<lparr>sa_m2 = 1, eff = 0.2, voc = 5, c_f = 0.01, r_esr = 0.1, q0_c = 0,
     p_on_w = 0.5, v_thresh = 3, dt_s = 1, dur_s = 5\<rparr>"

definition v0_spec :: real where
  "v0_spec = (5.4644 + sqrt 29.65966736) / 2"

definition s0_spec :: state where
  "s0_spec = \<lparr>isc_a = 54.644, i1_a = 0, qt_c = 0, p_mode_w = 0.5, t_s = 0,
     node_discr = 29.65966736, node_v = v0_spec, log_list = [(0, v0_spec)]\<rparr>"

definition s1_spec :: state where
  "s1_spec = \<lparr>isc_a = 54.644, i1_a = 0, qt_c = 0, p_mode_w = 0, t_s = 1,
     node_discr = 0, node_v = 0, log_list = [(0, v0_spec), (0, 0)]\<rparr>"

text \<open>
  A larger capacitor with a smaller series resistance, run for two seconds: the load is
  shed at once and the source charges the capacitor.
\<close>

definition cfg_run :: config where
  "cfg_run = \<lparr>sa_m2 = 1, eff = 0.2, voc = 5, c_f = 100, r_esr = 0.01, q0_c = 0,
     p_on_w = 0.5, v_thresh = 3, dt_s = 1, dur_s = 2\<rparr>"

definition v0_run :: real where
  "v0_run = (0.54644 + sqrt 0.2785966736) / 2"

definition s0_run :: state where
  "s0_run = \<lparr>isc_a = 54.644, i1_a = 54.644, qt_c = 0, p_mode_w = 0, t_s = 0,
     node_discr = 0.2785966736, node_v = v0_run, log_list = [(0, v0_run)]\<rparr>"

definition s1_run :: state where
  "s1_run = \<lparr>isc_a = 54.644, i1_a = 54.644, qt_c = 54.644, p_mode_w = 0, t_s = 1,
     node_discr = 1.09288\<^sup>2, node_v = 1.09288, log_list = [(0, v0_run), (0, 1.09288)]\<rparr>"

definition s2_run :: state where
  "s2_run = \<lparr>isc_a = 54.644, i1_a = 54.644, qt_c = 109.288, p_mode_w = 0, t_s = 2,
     node_discr = 1.63932\<^sup>2, node_v = 1.63932,
     log_list = [(0, v0_run), (0, 1.09288), (1, 1.63932)]\<rparr>"

definition s3_run :: state where
  "s3_run = \<lparr>isc_a = 54.644, i1_a = 54.644, qt_c = 163.932, p_mode_w = 0, t_s = 3,
     node_discr = 2.18576\<^sup>2, node_v = 2.18576,
     log_list = [(0, v0_run), (0, 1.09288), (1, 1.63932), (2, 2.18576)]\<rparr>"



section \<open>Basic facts\<close>

lemma truediv_simps:
  "truediv a 0 = Inl ZeroDivisionError"
  "b \<noteq> 0 \<Longrightarrow> truediv a b = Inr (a / b)"
  by (simp_all add: truediv_def)

lemma mode_switch_frame:
  "node_v (mode_switch cfg s) = node_v s"
  "t_s (mode_switch cfg s) = t_s s"
  "log_list (mode_switch cfg s) = log_list s"
  "qt_c (mode_switch cfg s) = qt_c s"
  "isc_a (mode_switch cfg s) = isc_a s"
  "node_discr (mode_switch cfg s) = node_discr s"
  by (simp_all add: mode_switch_def Let_def)

lemma mode_switch_i1: "i1_a (mode_switch cfg s) = (if voc cfg \<le> node_v s \<and> i1_a s \<noteq> 0 then 0 else i1_a s)"
  by (simp add: mode_switch_def Let_def)

lemma mode_switch_p: "p_mode_w (mode_switch cfg s) = (if node_v s < v_thresh cfg then 0 else p_mode_w s)"
  by (simp add: mode_switch_def Let_def)

text \<open>What a successful initialisation and a successful iteration compute.\<close>

lemma init_InrE:
  assumes "init cfg = Inr s"
  obtains isc d v where
    "solar_current irr_w_m2 (sa_m2 cfg) (eff cfg) (voc cfg) = Inr isc"
    "node_discrim (q0_c cfg) (c_f cfg) isc (r_esr cfg) (p_on_w cfg) = Inr d"
    "node_voltage (q0_c cfg) (c_f cfg) isc (r_esr cfg) d = Inr v"
    "s = mode_switch cfg \<lparr>isc_a = isc, i1_a = isc, qt_c = q0_c cfg, p_mode_w = p_on_w cfg,
                       t_s = 0, node_discr = d, node_v = v, log_list = [(0, v)]\<rparr>"
  using assms by (auto simp: init_def split: sum.splits)

lemma step_InrE:
  assumes "step cfg s = Inr s'"
  obtains i3 q pw i1 d0 pw' d v where
    "truediv (p_mode_w s) (node_v s) = Inr i3"
    "q = (if qt_c s + (i1_a s - i3) * dt_s cfg < 0 then 0 else qt_c s + (i1_a s - i3) * dt_s cfg)"
    "pw = (if p_mode_w s = 0 \<and> voc cfg \<le> node_v s then p_on_w cfg else p_mode_w s)"
    "i1 = (if 0 \<le> node_v s \<and> node_v s < voc cfg then isc_a s else 0)"
    "node_discrim q (c_f cfg) i1 (r_esr cfg) pw = Inr d0"
    "retry_discrim q (c_f cfg) i1 (r_esr cfg) pw d0 = Inr (pw', d)"
    "node_voltage q (c_f cfg) i1 (r_esr cfg) d = Inr v"
    "s' = (mode_switch cfg (s\<lparr>i1_a := i1, qt_c := q, p_mode_w := pw', node_discr := d, node_v := v\<rparr>))
            \<lparr>log_list := log_list s @ [(t_s s, v)], t_s := t_s s + dt_s cfg\<rparr>"
  using assms
  by (auto simp: step_def Let_def mode_switch_frame split: sum.splits prod.splits)

lemma step_time:
  assumes "step cfg s = Inr s'"
  shows "log_list s' = log_list s @ [(t_s s, node_v s')]" "t_s s' = t_s s + dt_s cfg"
  using assms by (auto elim!: step_InrE simp: mode_switch_frame)

lemma retry_discrim_pw:
  "retry_discrim q c i esr pw d0 = Inr (pw', d) \<Longrightarrow> pw' = pw \<or> pw' = 0"
  by (auto simp: retry_discrim_def split: if_splits sum.splits)

lemma retry_discrim_nonneg:
  "retry_discrim q c i esr pw d0 = Inr (pw', d) \<Longrightarrow> 0 \<le> d"
  by (auto simp: retry_discrim_def node_discrim_def truediv_def split: if_splits sum.splits)

subsection \<open>The loop\<close>

lemma while_loop_stop:
  "log_list s \<noteq> [] \<Longrightarrow> \<not> fst (last (log_list s)) < dur_s cfg \<Longrightarrow> while_loop cfg s = Some (Inr s)"
  by (subst while_loop.simps) (simp split: list.splits)

lemma while_loop_iter:
  "log_list s \<noteq> [] \<Longrightarrow> fst (last (log_list s)) < dur_s cfg \<Longrightarrow> step cfg s = Inr s' \<Longrightarrow>
   while_loop cfg s = while_loop cfg s'"
  by (subst while_loop.simps) (simp split: list.splits)

lemma while_loop_raise:
  "log_list s \<noteq> [] \<Longrightarrow> fst (last (log_list s)) < dur_s cfg \<Longrightarrow> step cfg s = Inl e \<Longrightarrow>
   while_loop cfg s = Some (Inl e)"
  by (subst while_loop.simps) (simp split: list.splits)



text \<open>The state a run ends in is one of the logged states.\<close>

lemma while_loop_reach_aux:
  assumes "while_loop cfg s = Some r"
  shows "reach cfg s \<longrightarrow> (\<forall>s'. r = Inr s' \<longrightarrow> reach cfg s')"
  using assms
proof (rule while_loop.raw_induct
    [rotated, where P = "\<lambda>c s r. reach c s \<longrightarrow> (\<forall>s'. r = Inr s' \<longrightarrow> reach c s')"])
  fix loop :: "config \<Rightarrow> state \<Rightarrow> (py_error + state) option" and c s r
  assume IH: "\<And>c s y. loop c s = Some y \<Longrightarrow>
                reach c s \<longrightarrow> (\<forall>s'. y = Inr s' \<longrightarrow> reach c s')"
    and body: "(case log_list s of [] \<Rightarrow> Some (Inl IndexError)
      | x # xa \<Rightarrow>
          if fst (last (log_list s)) < dur_s c
          then case step c s of Inl e \<Rightarrow> Some (Inl e)
               | Inr s' \<Rightarrow> loop c s'
          else Some (Inr s)) = Some r"
  show "reach c s \<longrightarrow> (\<forall>s'. r = Inr s' \<longrightarrow> reach c s')"
  proof (intro impI allI)
    fix s'
    assume rs: "reach c s" and r: "r = Inr s'"
    show "reach c s'"
    proof (cases "fst (last (log_list s)) < dur_s c")
      case True
      with body r obtain s1 where s1: "step c s = Inr s1" "loop c s1 = Some r"
        and ne: "log_list s \<noteq> []"
        by (auto split: list.splits sum.splits)
      from rs ne True s1(1) have "reach c s1" by (rule reach_step)
      with IH[OF s1(2)] r show ?thesis by blast
    next
      case False
      with body r rs show ?thesis by (auto split: list.splits)
    qed
  qed
qed

lemma while_loop_reach:
  "while_loop cfg s = Some (Inr s') \<Longrightarrow> reach cfg s \<Longrightarrow> reach cfg s'"
  using while_loop_reach_aux by blast

lemma run_reach: "run cfg = Some (Inr s) \<Longrightarrow> reach cfg s"
  by (auto simp: run_def split: sum.splits intro: while_loop_reach reach_init)

lemma reach_has_init: "reach cfg s \<Longrightarrow> \<exists>s0. init cfg = Inr s0"
  by (induction rule: reach.induct) auto

lemma reach_log_hd:
  assumes "reach cfg s" "init cfg = Inr s0"
  shows "log_list s \<noteq> [] \<and> hd (log_list s) = (0, node_v s0)"
  using assms
proof (induction rule: reach.induct)
  case (reach_init s)
  then show ?case by (elim init_InrE) (simp add: mode_switch_frame)
next
  case (reach_step s s')
  from reach_step.hyps(4) reach_step.IH reach_step.prems show ?case
    by (elim step_InrE) (simp add: mode_switch_frame)
qed

text \<open>
  The times in the log: the first row and the row of the first iteration carry time 0,
  the row of iteration \<open>k\<close> carries \<open>(k - 1) * dt_s\<close>; the loop goes on as long as the last
  of them is below \<open>dur_s\<close>.
\<close>

lemma reach_time_column:
  assumes "reach cfg s"
  shows "map fst (log_list s) =
           0 # map (\<lambda>k. real k * dt_s cfg) [0..<length (log_list s) - 1] \<and>
         t_s s = real (length (log_list s) - 1) * dt_s cfg"
  using assms
proof (induction rule: reach.induct)
  case (reach_init s)
  then show ?case by (elim init_InrE) (simp add: mode_switch_frame)
next
  case (reach_step s s')
  from reach_step.hyps(2) obtain n where n: "length (log_list s) = Suc n"
    by (cases "log_list s") auto
  from step_time[OF reach_step.hyps(4)] reach_step.IH n show ?case
    by (simp add: algebra_simps)
qed

lemma reach_last_time:
  assumes "reach cfg s"
  shows "log_list s \<noteq> [] \<and>
         fst (last (log_list s)) = real (length (log_list s) - 2) * dt_s cfg \<and>
         (2 \<le> length (log_list s) \<longrightarrow> 0 < dur_s cfg) \<and>
         (3 \<le> length (log_list s) \<longrightarrow> real (length (log_list s) - 3) * dt_s cfg < dur_s cfg)"
  using assms
proof (induction rule: reach.induct)
  case (reach_init s)
  then show ?case by (elim init_InrE) (simp add: mode_switch_frame)
next
  case (reach_step s s')
  from reach_step.hyps(2) obtain n where n: "length (log_list s) = Suc n"
    by (cases "log_list s") auto
  from reach_time_column[OF reach_step.hyps(1)] n have t: "t_s s = real n * dt_s cfg" by simp
  from step_time[OF reach_step.hyps(4)] reach_step.IH reach_step.hyps(3) n t show ?case
    by (cases n) (auto simp: numeral_2_eq_2 numeral_3_eq_3)
qed

lemma while_loop_exit_aux:
  assumes "while_loop cfg s = Some r"
  shows "\<forall>s'. r = Inr s' \<longrightarrow> \<not> fst (last (log_list s')) < dur_s cfg"
  using assms
proof (rule while_loop.raw_induct
    [rotated, where P = "\<lambda>c s r. \<forall>s'. r = Inr s' \<longrightarrow> \<not> fst (last (log_list s')) < dur_s c"])
  fix loop :: "config \<Rightarrow> state \<Rightarrow> (py_error + state) option" and c s r
  assume IH: "\<And>c s y. loop c s = Some y \<Longrightarrow>
                \<forall>s'. y = Inr s' \<longrightarrow> \<not> fst (last (log_list s')) < dur_s c"
    and body: "(case log_list s of [] \<Rightarrow> Some (Inl IndexError)
      | x # xa \<Rightarrow>
          if fst (last (log_list s)) < dur_s c
          then case step c s of Inl e \<Rightarrow> Some (Inl e)
               | Inr s' \<Rightarrow> loop c s'
          else Some (Inr s)) = Some r"
  show "\<forall>s'. r = Inr s' \<longrightarrow> \<not> fst (last (log_list s')) < dur_s c"
  proof (cases "fst (last (log_list s)) < dur_s c")
    case True
    with body IH show ?thesis
      by (auto split: list.splits sum.splits)
  next
    case False
    with body show ?thesis by (auto split: list.splits)
  qed
qed

lemma run_exit: "run cfg = Some (Inr s) \<Longrightarrow> \<not> fst (last (log_list s)) < dur_s cfg"
  using while_loop_exit_aux by (fastforce simp: run_def split: sum.splits)

lemma run_row_count:
  assumes "run cfg = Some (Inr s)" "0 < dt_s cfg" "0 < dur_s cfg"
  shows "int (length (log_list s)) = \<lceil>dur_s cfg / dt_s cfg\<rceil> + 2"
proof -
  define m where "m = length (log_list s) - 2"
  from reach_last_time[OF run_reach[OF assms(1)]]
  have last: "fst (last (log_list s)) = real m * dt_s cfg"
    and prev: "3 \<le> length (log_list s) \<longrightarrow>
                 real (length (log_list s) - 3) * dt_s cfg < dur_s cfg"
    by (simp_all add: m_def)
  from run_exit[OF assms(1)] last have ge: "dur_s cfg \<le> real m * dt_s cfg" by simp
  from assms(3) ge have "0 < real m * dt_s cfg" by (rule less_le_trans)
  with assms(2) have "0 < m" by (simp add: zero_less_mult_iff)
  then obtain k where k: "m = Suc k" by (cases m) auto
  then have len: "length (log_list s) = k + 3" by (simp add: m_def)
  with prev have lt: "real k * dt_s cfg < dur_s cfg" by simp
  from ge assms(2) k have up: "dur_s cfg / dt_s cfg \<le> of_int (int k + 1)"
    by (simp add: pos_divide_le_eq add.commute)
  from lt assms(2) have lo: "of_int (int k + 1) - 1 < dur_s cfg / dt_s cfg"
    by (simp add: pos_less_divide_eq)
  from lo up have "\<lceil>dur_s cfg / dt_s cfg\<rceil> = int k + 1" by (rule ceiling_unique)
  with len show ?thesis by simp
qed



subsection \<open>A solve with the load off\<close>

lemma node_solve_load_off:
  assumes "c \<noteq> 0" "0 \<le> q / c + i * esr"
  shows "node_discrim q c i esr 0 = Inr ((q / c + i * esr)\<^sup>2)"
    and "retry_discrim q c i esr 0 ((q / c + i * esr)\<^sup>2) = Inr (0, (q / c + i * esr)\<^sup>2)"
    and "node_voltage q c i esr ((q / c + i * esr)\<^sup>2) = Inr (q / c + i * esr)"
  using assms
  by (simp_all add: node_discrim_def retry_discrim_def node_voltage_def truediv_def math_sqrt_def)


lemma step_load_off:
  assumes off: "p_mode_w s = 0" and v: "0 < node_v s" "node_v s < voc cfg" and c: "c_f cfg \<noteq> 0"
    and q: "0 \<le> qt_c s + i1_a s * dt_s cfg"
    and x: "0 \<le> (qt_c s + i1_a s * dt_s cfg) / c_f cfg + isc_a s * r_esr cfg"
  shows "step cfg s =
    Inr ((mode_switch cfg
           (s\<lparr>i1_a := isc_a s, qt_c := qt_c s + i1_a s * dt_s cfg, p_mode_w := 0,
              node_discr := ((qt_c s + i1_a s * dt_s cfg) / c_f cfg + isc_a s * r_esr cfg)\<^sup>2,
              node_v := (qt_c s + i1_a s * dt_s cfg) / c_f cfg + isc_a s * r_esr cfg\<rparr>))
         \<lparr>log_list := log_list s @
            [(t_s s, (qt_c s + i1_a s * dt_s cfg) / c_f cfg + isc_a s * r_esr cfg)],
          t_s := t_s s + dt_s cfg\<rparr>)"
proof -
  from off v have i3: "truediv (p_mode_w s) (node_v s) = Inr 0"
    by (simp add: truediv_def)
  from q have q': "\<not> qt_c s + i1_a s * dt_s cfg < 0" by simp
  show ?thesis
    unfolding step_def i3
    using off v q' node_solve_load_off[OF c x]
    by (simp add: Let_def mode_switch_frame)
qed

subsection \<open>The example runs\<close>

lemma v0_spec_bound: "5 \<le> v0_spec"
proof -
  define r :: real where "r = sqrt 29.65966736"
  have "5 \<le> r"
    unfolding r_def by (rule real_le_rsqrt) simp
  then show ?thesis unfolding v0_spec_def r_def[symmetric] by simp
qed

lemma init_cfg_spec: "init cfg_spec = Inr s0_spec"
  using v0_spec_bound
  by (simp add: init_def cfg_spec_def s0_spec_def solar_current_def irr_w_m2_def truediv_def
      node_discrim_def node_voltage_def math_sqrt_def mode_switch_def Let_def v0_spec_def
      power2_eq_square)

lemma step_s0_spec: "step cfg_spec s0_spec = Inr s1_spec"
proof -
  from v0_spec_bound have pos: "0 < v0_spec" by simp
  then have "0 < 0.5 / v0_spec" by simp
  then have neg: "0 + (0 - 0.5 / v0_spec) * 1 < 0" by simp
  from pos v0_spec_bound neg show ?thesis
    by (simp add: step_def cfg_spec_def s0_spec_def s1_spec_def truediv_def Let_def
        node_discrim_def retry_discrim_def node_voltage_def math_sqrt_def mode_switch_def)
qed

lemma step_s1_spec: "step cfg_spec s1_spec = Inl ZeroDivisionError"
  by (simp add: step_def s1_spec_def truediv_def)

lemma run_cfg_spec: "run cfg_spec = Some (Inl ZeroDivisionError)"
proof -
  have "while_loop cfg_spec s1_spec = Some (Inl ZeroDivisionError)"
    by (rule while_loop_raise[OF _ _ step_s1_spec]) (simp_all add: s1_spec_def cfg_spec_def)
  moreover have "while_loop cfg_spec s0_spec = while_loop cfg_spec s1_spec"
    by (rule while_loop_iter[OF _ _ step_s0_spec]) (simp_all add: s0_spec_def cfg_spec_def)
  ultimately show ?thesis by (simp add: run_def init_cfg_spec)
qed

lemma v0_run_bounds: "0 < v0_run" "v0_run < 3"
proof -
  define r :: real where "r = sqrt 0.2785966736"
  have lo: "0 \<le> r"
    unfolding r_def by (rule real_sqrt_ge_zero) simp
  have hi: "r \<le> 1"
    unfolding r_def by (rule real_sqrt_le_1_iff[THEN iffD2]) simp
  from lo show "0 < v0_run" unfolding v0_run_def r_def[symmetric] by simp
  from hi show "v0_run < 3" unfolding v0_run_def r_def[symmetric] by simp
qed

lemma init_cfg_run: "init cfg_run = Inr s0_run"
  using v0_run_bounds
  by (simp add: init_def cfg_run_def s0_run_def solar_current_def irr_w_m2_def truediv_def
      node_discrim_def node_voltage_def math_sqrt_def mode_switch_def Let_def v0_run_def
      power2_eq_square)

lemma step_s0_run: "step cfg_run s0_run = Inr s1_run"
  using v0_run_bounds
  by (subst step_load_off) (simp_all add: cfg_run_def s0_run_def s1_run_def mode_switch_def Let_def)

lemma step_s1_run: "step cfg_run s1_run = Inr s2_run"
  by (subst step_load_off) (simp_all add: cfg_run_def s1_run_def s2_run_def mode_switch_def Let_def)

lemma step_s2_run: "step cfg_run s2_run = Inr s3_run"
  by (subst step_load_off) (simp_all add: cfg_run_def s2_run_def s3_run_def mode_switch_def Let_def)

lemma run_cfg_run: "run cfg_run = Some (Inr s3_run)"
proof -
  have "while_loop cfg_run s3_run = Some (Inr s3_run)"
    by (rule while_loop_stop) (simp_all add: s3_run_def cfg_run_def)
  moreover have "while_loop cfg_run s2_run = while_loop cfg_run s3_run"
    by (rule while_loop_iter[OF _ _ step_s2_run]) (simp_all add: s2_run_def cfg_run_def)
  moreover have "while_loop cfg_run s1_run = while_loop cfg_run s2_run"
    by (rule while_loop_iter[OF _ _ step_s1_run]) (simp_all add: s1_run_def cfg_run_def)
  moreover have "while_loop cfg_run s0_run = while_loop cfg_run s1_run"
    by (rule while_loop_iter[OF _ _ step_s0_run]) (simp_all add: s0_run_def cfg_run_def)
  ultimately show ?thesis by (simp add: run_def init_cfg_run)
qed

lemma reach_s0_spec: "reach cfg_spec s0_spec"
  by (rule reach_init) (rule init_cfg_spec)

lemma reach_s1_spec: "reach cfg_spec s1_spec"
  by (rule reach_step[OF reach_s0_spec _ _ step_s0_spec]) (simp_all add: s0_spec_def cfg_spec_def)

lemma reach_s3_run: "reach cfg_run s3_run"
  by (rule run_reach) (rule run_cfg_run)



section \<open>The claims\<close>

subsection \<open>C1: the negative-discriminant retry\<close>

text \<open>
  Claim C1 says that the retry of lines 116--118 (a negative discriminant forces the load
  power to zero and is computed again) is applied at the initialisation as it is in every
  iteration, so that \<open>math.sqrt\<close> never receives a negative discriminant. The loop has the
  retry; the first solve of lines 92--93 has not. On the specification's scenario with
  \<open>p_on_w = 100\<close> the first discriminant is \<open>5.4644\<^sup>2 - 40 < 0\<close>, and the script ends in
  an uncaught \<open>ValueError\<close> before a row is logged.
\<close>

theorem initial_solve_raises_ValueError:
  "main [Str ''sim_energy_system_cap.py'', Num 1, Num 0.2, Num 5, Num 0.01, Num 0.1,
         Num 0, Num 100, Num 3, Num 1, Num 5] = Some (Uncaught ValueError)"
  by (simp add: main_def config_of_def run_def init_def solar_current_def irr_w_m2_def
      truediv_def node_discrim_def node_voltage_def math_sqrt_def power2_eq_square)

text \<open>Inside the loop the claim holds: no iteration raises \<open>ValueError\<close>.\<close>

theorem step_never_raises_ValueError: "step cfg s \<noteq> Inl ValueError"
  by (auto simp: step_def Let_def truediv_def node_discrim_def node_voltage_def
      retry_discrim_def math_sqrt_def split: sum.splits prod.splits if_splits)

subsection \<open>C2: the time column\<close>

text \<open>
  Claim C2 says that the time column of the trace is strictly increasing, from 0 in steps
  of \<open>dt_s\<close>. The first row is logged at \<open>t_s = 0\<close> (line 94), and every iteration logs
  its row before it advances \<open>t_s\<close> (lines 128--129), so the first iteration logs time 0
  a second time. On \<open>cfg_run\<close> the script writes four rows, at the times 0, 0, 1, 2.
\<close>

theorem time_column_repeats_zero:
  "main [Str ''sim_energy_system_cap.py'', Num 1, Num 0.2, Num 5, Num 100, Num 0.01,
         Num 0, Num 0.5, Num 3, Num 1, Num 2] =
   Some (LogCsv [(0, (0.54644 + sqrt 0.2785966736) / 2), (0, 1.09288), (1, 1.63932),
                 (2, 2.18576)])"
proof -
  have "config_of [1, 0.2, 5, 100, 0.01, 0, 0.5, 3, 1, 2] = cfg_run"
    by (simp add: config_of_def cfg_run_def)
  then show ?thesis
    by (simp add: main_def run_cfg_run s3_run_def v0_run_def)
qed

subsection \<open>C3: the divisor of the load current\<close>

text \<open>
  Claim C3 says that \<open>node_v\<close> is strictly positive whenever line 104 divides by it. On
  the scenario of the specification's section 8 the first voltage is above \<open>voc\<close>, so the
  source is disconnected; the first iteration empties the capacitor, its discriminant is
  negative, the retry switches the load off, and the voltage it logs is 0. The second
  iteration divides by that voltage: the script ends in an uncaught \<open>ZeroDivisionError\<close>.
\<close>

theorem spec_scenario_divides_by_zero:
  "main [Str ''sim_energy_system_cap.py'', Num 1, Num 0.2, Num 5, Num 0.01, Num 0.1,
         Num 0, Num 0.5, Num 3, Num 1, Num 5] = Some (Uncaught ZeroDivisionError)"
proof -
  have "config_of [1, 0.2, 5, 0.01, 0.1, 0, 0.5, 3, 1, 5] = cfg_spec"
    by (simp add: config_of_def cfg_spec_def)
  then show ?thesis
    by (simp add: main_def run_cfg_spec)
qed

subsection \<open>C4: the mode-switch rules\<close>

text \<open>
  Claim C4: in every logged state (after the initialisation and after each iteration) the
  source current is zero if the node voltage is at or above \<open>voc\<close>, the load power is
  zero if the node voltage is below \<open>v_thresh\<close>, the source current is the short-circuit
  current or zero, and the load power is \<open>p_on_w\<close> or zero.
\<close>

theorem mode_switch_invariant:
  assumes "reach cfg s"
  shows "(voc cfg \<le> node_v s \<longrightarrow> i1_a s = 0) \<and>
         (node_v s < v_thresh cfg \<longrightarrow> p_mode_w s = 0) \<and>
         (i1_a s = isc_a s \<or> i1_a s = 0) \<and>
         (p_mode_w s = p_on_w cfg \<or> p_mode_w s = 0)"
  using assms
proof (induction rule: reach.induct)
  case (reach_init s)
  then show ?case
    by (elim init_InrE) (simp add: mode_switch_frame mode_switch_i1 mode_switch_p)
next
  case (reach_step s s')
  from reach_step.hyps(4) show ?case
  proof (rule step_InrE)
    fix i3 q pw i1 d0 pw' d v
    assume pw: "pw = (if p_mode_w s = 0 \<and> voc cfg \<le> node_v s then p_on_w cfg else p_mode_w s)"
      and i1: "i1 = (if 0 \<le> node_v s \<and> node_v s < voc cfg then isc_a s else 0)"
      and r: "retry_discrim q (c_f cfg) i1 (r_esr cfg) pw d0 = Inr (pw', d)"
      and s': "s' = (mode_switch cfg
                 (s\<lparr>i1_a := i1, qt_c := q, p_mode_w := pw', node_discr := d, node_v := v\<rparr>))
               \<lparr>log_list := log_list s @ [(t_s s, v)], t_s := t_s s + dt_s cfg\<rparr>"
    from retry_discrim_pw[OF r] have "pw' = pw \<or> pw' = 0" .
    moreover from pw reach_step.IH have "pw = p_on_w cfg \<or> pw = 0" by auto
    ultimately have "pw' = p_on_w cfg \<or> pw' = 0" by auto
    moreover from i1 have "i1 = isc_a s \<or> i1 = 0" by auto
    ultimately show ?thesis
      by (auto simp: s' mode_switch_frame mode_switch_i1 mode_switch_p)
  qed
qed

text \<open>
  On the specification's scenario: after the initialisation the voltage is above \<open>voc\<close>
  and the source is off; after the first iteration the voltage is below \<open>v_thresh\<close> and
  the load is off.
\<close>

theorem mode_switch_invariant_witness:
  "reach cfg_spec s1_spec \<and> node_v s1_spec < v_thresh cfg_spec \<and> p_mode_w s1_spec = 0 \<and>
   i1_a s1_spec = 0"
  using mode_switch_invariant[OF reach_s1_spec] reach_s1_spec
  by (simp add: s1_spec_def cfg_spec_def)

subsection \<open>C5: the charge is never negative\<close>



subsection \<open>C6: an open-circuit voltage of zero\<close>

text \<open>
  Claim C6: if \<open>voc\<close> is zero, the computation of the short-circuit current (line 85,
  through \<open>solar_current\<close>) raises \<open>ZeroDivisionError\<close>, whatever the other parameters
  are. The run ends there: no state exists and no row is logged or written.
\<close>

theorem zero_voc_raises:
  assumes "voc cfg = 0"
  shows "solar_current irr_w_m2 (sa_m2 cfg) (eff cfg) (voc cfg) = Inl ZeroDivisionError \<and>
         init cfg = Inl ZeroDivisionError \<and>
         run cfg = Some (Inl ZeroDivisionError)"
  using assms by (simp add: run_def init_def solar_current_def truediv_def)

text \<open>The specification's scenario with \<open>voc = 0\<close>, from the command line.\<close>

theorem zero_voc_raises_witness:
  "voc (cfg_spec\<lparr>voc := 0\<rparr>) = 0 \<and>
   run (cfg_spec\<lparr>voc := 0\<rparr>) = Some (Inl ZeroDivisionError) \<and>
   main [Str ''sim_energy_system_cap.py'', Num 1, Num 0.2, Num 0, Num 0.01, Num 0.1,
         Num 0, Num 0.5, Num 3, Num 1, Num 5] = Some (Uncaught ZeroDivisionError)"
proof -
  have v: "voc (cfg_spec\<lparr>voc := 0\<rparr>) = 0" by simp
  have c: "config_of [1, 0.2, 0, 0.01, 0.1, 0, 0.5, 3, 1, 5] = cfg_spec\<lparr>voc := 0\<rparr>"
    by (simp add: config_of_def cfg_spec_def)
  from zero_voc_raises[OF v] have r: "run (cfg_spec\<lparr>voc := 0\<rparr>) = Some (Inl ZeroDivisionError)"
    by simp
  with c have "main [Str ''sim_energy_system_cap.py'', Num 1, Num 0.2, Num 0, Num 0.01,
      Num 0.1, Num 0, Num 0.5, Num 3, Num 1, Num 5] = Some (Uncaught ZeroDivisionError)"
    by (simp add: main_def)
  with v r show ?thesis by simp
qed

subsection \<open>C7: the first voltage with no charge and no load\<close>




subsection \<open>C8: the loop ends\<close>




subsection \<open>C9: a wrong number of arguments\<close>

text \<open>
  Claim C9 says that with a number of arguments other than ten the script prints its
  usage message and exits with a non-zero status, without running the simulation. The
  script calls \<open>sys.exit()\<close> with no argument (line 80), and the exit status is then 0.
\<close>

theorem wrong_arity_exit_status_counterexample:
  "main [Str ''sim_energy_system_cap.py''] = Some (SystemExit usage None) \<and>
   exit_status (SystemExit usage None) = 0"
  by (simp add: main_def)

text \<open>
  Claim C9 as amended: when \<open>sys.argv\<close> has a length other than eleven (the script's
  name and ten arguments), the script prints the usage message and exits through
  \<open>sys.exit()\<close>, with the exit status 0; nothing is simulated and nothing is written.
\<close>

theorem wrong_arity_prints_usage:
  assumes "length argv \<noteq> 11"
  shows "main argv = Some (SystemExit usage None) \<and> exit_status (SystemExit usage None) = 0"
  using assms by (simp add: main_def)

theorem wrong_arity_prints_usage_witness:
  "length [Str ''sim_energy_system_cap.py'', Num 1, Num 0.2, Num 5] \<noteq> 11 \<and>
   main [Str ''sim_energy_system_cap.py'', Num 1, Num 0.2, Num 5] =
     Some (SystemExit usage None)"
  using wrong_arity_prints_usage[of "[Str ''sim_energy_system_cap.py'', Num 1, Num 0.2, Num 5]"]
  by simp

subsection \<open>C10: the first row is logged before the rules\<close>

text \<open>
  Claim C10: the row logged at time 0 holds the voltage solved from the full
  short-circuit current and the configured load power, whether that voltage is below
  \<open>v_thresh\<close>, at or above \<open>voc\<close>, or neither; the two rules applied at the
  initialisation change \<open>i1_a\<close> and \<open>p_mode_w\<close> only, and no iteration changes the first
  row. So in every logged state the head of the log is that row.
\<close>

theorem first_row_before_rules:
  assumes "reach cfg s"
  shows "\<exists>isc d v.
           solar_current irr_w_m2 (sa_m2 cfg) (eff cfg) (voc cfg) = Inr isc \<and>
           node_discrim (q0_c cfg) (c_f cfg) isc (r_esr cfg) (p_on_w cfg) = Inr d \<and>
           node_voltage (q0_c cfg) (c_f cfg) isc (r_esr cfg) d = Inr v \<and>
           hd (log_list s) = (0, v)"
proof -
  from reach_has_init[OF assms] obtain s0 where s0: "init cfg = Inr s0" by blast
  from reach_log_hd[OF assms s0] have hd: "hd (log_list s) = (0, node_v s0)" by simp
  from s0 show ?thesis
  proof (rule init_InrE)
    fix isc d v
    assume "solar_current irr_w_m2 (sa_m2 cfg) (eff cfg) (voc cfg) = Inr isc"
      "node_discrim (q0_c cfg) (c_f cfg) isc (r_esr cfg) (p_on_w cfg) = Inr d"
      "node_voltage (q0_c cfg) (c_f cfg) isc (r_esr cfg) d = Inr v"
      "s0 = mode_switch cfg \<lparr>isc_a = isc, i1_a = isc, qt_c = q0_c cfg, p_mode_w = p_on_w cfg,
                       t_s = 0, node_discr = d, node_v = v, log_list = [(0, v)]\<rparr>"
    with hd show ?thesis by (auto simp: mode_switch_frame)
  qed
qed

text \<open>
  On the specification's scenario the first voltage is above \<open>voc\<close>: the source is
  switched off at the initialisation, and the first row still holds the voltage solved
  with the source on, also after the first iteration.
\<close>

theorem first_row_before_rules_witness:
  "reach cfg_spec s1_spec \<and> voc cfg_spec \<le> v0_spec \<and> i1_a s0_spec = 0 \<and>
   node_voltage (q0_c cfg_spec) (c_f cfg_spec) 54.644 (r_esr cfg_spec) 29.65966736 = Inr v0_spec \<and>
   hd (log_list s1_spec) = (0, v0_spec)"
proof -
  from first_row_before_rules[OF reach_s1_spec] obtain isc d v where
    a: "solar_current irr_w_m2 (sa_m2 cfg_spec) (eff cfg_spec) (voc cfg_spec) = Inr isc"
    and b: "node_discrim (q0_c cfg_spec) (c_f cfg_spec) isc (r_esr cfg_spec) (p_on_w cfg_spec) = Inr d"
    and c: "node_voltage (q0_c cfg_spec) (c_f cfg_spec) isc (r_esr cfg_spec) d = Inr v"
    and e: "hd (log_list s1_spec) = (0, v)"
    by blast
  from a have isc: "isc = 54.644"
    by (simp add: solar_current_def truediv_def irr_w_m2_def cfg_spec_def)
  from b have d: "d = 29.65966736"
    by (simp add: isc node_discrim_def truediv_def cfg_spec_def power2_eq_square)
  from e have v: "v = v0_spec" by (simp add: s1_spec_def)
  from c have "node_voltage (q0_c cfg_spec) (c_f cfg_spec) 54.644 (r_esr cfg_spec) 29.65966736 =
      Inr v0_spec"
    unfolding isc d v .
  moreover from v0_spec_bound have "voc cfg_spec \<le> v0_spec" by (simp add: cfg_spec_def)
  moreover have "i1_a s0_spec = 0" by (simp add: s0_spec_def)
  ultimately show ?thesis using reach_s1_spec e v by simp
qed

section \<open>Further properties of the log\<close>

text \<open>
  The time column in general. In every logged state the times of the log are 0 followed
  by \<open>0, dt_s, 2 * dt_s, ...\<close>, one for each iteration made so far, and \<open>t_s\<close> is the
  number of iterations times \<open>dt_s\<close>: the row of the first iteration repeats time 0
  (lines 94 and 128--129).
\<close>

theorem time_column_shape:
  assumes "reach cfg s"
  shows "map fst (log_list s) =
           0 # map (\<lambda>k. real k * dt_s cfg) [0..<length (log_list s) - 1] \<and>
         t_s s = real (length (log_list s) - 1) * dt_s cfg"
  using assms by (rule reach_time_column)

theorem time_column_shape_witness:
  "reach cfg_run s3_run \<and> map fst (log_list s3_run) = [0, 0, 1, 2] \<and> t_s s3_run = 3"
proof -
  have "[0..<3] = [0, 1, 2]" by (simp add: upt_rec)
  with time_column_shape[OF reach_s3_run] reach_s3_run show ?thesis
    by (simp add: s3_run_def cfg_run_def)
qed

text \<open>
  The number of rows. A run with a positive time step and a positive duration that ends
  without an exception has logged \<open>\<lceil>dur_s / dt_s\<rceil> + 2\<close> rows: the first row, and one
  row for each of the times \<open>0, dt_s, ...\<close> up to the first that is not below \<open>dur_s\<close>.
\<close>

theorem row_count:
  assumes "run cfg = Some (Inr s)" "0 < dt_s cfg" "0 < dur_s cfg"
  shows "int (length (log_list s)) = \<lceil>dur_s cfg / dt_s cfg\<rceil> + 2"
  using assms by (rule run_row_count)

theorem row_count_witness:
  "run cfg_run = Some (Inr s3_run) \<and> 0 < dt_s cfg_run \<and> 0 < dur_s cfg_run \<and>
   int (length (log_list s3_run)) = 4 \<and> \<lceil>dur_s cfg_run / dt_s cfg_run\<rceil> + 2 = 4"
proof -
  have h: "0 < dt_s cfg_run" "0 < dur_s cfg_run" by (simp_all add: cfg_run_def)
  from row_count[OF run_cfg_run h] have "int (length (log_list s3_run)) = 4"
    by (simp add: cfg_run_def)
  with run_cfg_run h show ?thesis by (simp add: cfg_run_def)
qed

end
